theory Spec2Isabelle
  imports Main "HOL-Library.Word"
begin

section \<open>The password service of package kv (kv/passwords.go)\<close>

text \<open>
  The service stores one bcrypt digest per user in the bucket \<open>userspasswordv1\<close> of a
  transactional key-value store and offers three operations: \<open>SetPassword\<close>,
  \<open>ComparePassword\<close> and \<open>CompareAndSetPassword\<close>.

  A Go \<open>string\<close> and a \<open>[]byte\<close> are byte sequences, and so is an Isabelle
  \<open>string\<close> (a \<open>char\<close> is one byte): \<open>len(password)\<close> is \<open>length password\<close> and
  the conversion \<open>[]byte(password)\<close> is the identity. \<open>influxdb.ID\<close> is a
  \<open>uint64\<close>. A Go \<open>error\<close> that comes out of a collaborator is kept as its message,
  which is what \<open>%v\<close> prints. The \<open>context.Context\<close> argument only travels to the
  collaborators and is left out.
\<close>

type_synonym bytes = string
type_synonym ID = "64 word"
type_synonym go_error = string

subsection \<open>Errors\<close>

datatype ErrCode = EForbidden | EInvalid | EUnavailable | EInternal

text \<open>\<open>influxdb.Error\<close> with the three fields this file sets; an \<open>Op\<close> that is not set
  is the empty string.\<close>

datatype influxdb_Error = Error (Code: ErrCode) (Msg: string) (Op: string)

definition MinPasswordLength :: nat where
  "MinPasswordLength = 8"

definition EIncorrectPassword :: influxdb_Error where
  "EIncorrectPassword = Error EForbidden ''your username or password is incorrect'' ''''"

definition EIncorrectUser :: influxdb_Error where
  "EIncorrectUser = Error EForbidden ''your userID is incorrect'' ''''"

definition EShortPassword :: influxdb_Error where
  "EShortPassword = Error EInvalid ''passwords must be at least 8 characters long'' ''''"

definition UnavailablePasswordServiceError :: "go_error \<Rightarrow> influxdb_Error" where
  "UnavailablePasswordServiceError err =
     Error EUnavailable
       (''Unable to connect to password service. Please try again; Err: '' @ err)
       ''kv/setPassword''"

definition CorruptUserIDError :: "string \<Rightarrow> go_error \<Rightarrow> influxdb_Error" where
  "CorruptUserIDError userID err =
     Error EInternal
       (''User ID '' @ userID @ '' has been corrupted; Err: '' @ err)
       ''kv/setPassword''"

definition InternalPasswordHashError :: "go_error \<Rightarrow> influxdb_Error" where
  "InternalPasswordHashError err =
     Error EInternal (''Unable to generate password; Err: '' @ err) ''kv/setPassword''"

definition userpasswordBucket :: bytes where
  "userpasswordBucket = ''userspasswordv1''"

subsection \<open>The hashing strategy\<close>

text \<open>The interface \<open>Crypt\<close>: \<open>CompareHashAndPassword\<close> returns \<open>nil\<close> (\<open>None\<close>) on
  success, \<open>GenerateFromPassword\<close> the digest or an error.\<close>

record Crypt =
  CompareHashAndPassword :: "bytes \<Rightarrow> bytes \<Rightarrow> go_error option"
  GenerateFromPassword :: "bytes \<Rightarrow> int \<Rightarrow> go_error + bytes"

text \<open>The package \<open>golang.org/x/crypto/bcrypt\<close> is not part of the repository: its two
  cost constants and its two functions are parameters.\<close>

record bcrypt_package =
  bcrypt_MinCost :: int
  bcrypt_DefaultCost :: int
  bcrypt_CompareHashAndPassword :: "bytes \<Rightarrow> bytes \<Rightarrow> go_error option"
  bcrypt_GenerateFromPassword :: "bytes \<Rightarrow> int \<Rightarrow> go_error + bytes"

text \<open>\<open>var DefaultCost = bcrypt.DefaultCost\<close>\<close>

definition DefaultCost :: "bcrypt_package \<Rightarrow> int" where
  "DefaultCost bcrypt = bcrypt_DefaultCost bcrypt"

definition Bcrypt_CompareHashAndPassword ::
  "bcrypt_package \<Rightarrow> bytes \<Rightarrow> bytes \<Rightarrow> go_error option" where
  "Bcrypt_CompareHashAndPassword bcrypt hashedPassword password =
     bcrypt_CompareHashAndPassword bcrypt hashedPassword password"

definition Bcrypt_GenerateFromPassword ::
  "bcrypt_package \<Rightarrow> bytes \<Rightarrow> int \<Rightarrow> go_error + bytes" where
  "Bcrypt_GenerateFromPassword bcrypt password cost =
     (let cost = (if cost < bcrypt_MinCost bcrypt then DefaultCost bcrypt else cost)
      in bcrypt_GenerateFromPassword bcrypt password cost)"

text \<open>\<open>&Bcrypt{}\<close>, the implementation of \<open>Crypt\<close> on top of the package.\<close>

definition Bcrypt :: "bcrypt_package \<Rightarrow> Crypt" where
  "Bcrypt bcrypt =
     \<lparr>CompareHashAndPassword = Bcrypt_CompareHashAndPassword bcrypt,
      GenerateFromPassword = Bcrypt_GenerateFromPassword bcrypt\<rparr>"

subsection \<open>The service, its collaborators and the world it runs in\<close>

text \<open>
  Every call the service makes to a collaborator is recorded, in order, beside the
  contents of the store: what ran, and in which order, is part of what the operations do
  (hashing is slow by design). \<open>ID.Encode\<close> and \<open>ID.String\<close> are pure methods of a
  value and are not recorded.
\<close>

datatype Call =
    CallView
  | CallUpdate
  | CallFindUserByID ID
  | CallBucket bytes
  | CallGet bytes
  | CallPut bytes bytes
  | CallGenerateFromPassword bytes int
  | CallCompareHashAndPassword bytes bytes

record 's World =
  store :: 's
  calls :: "Call list"

definition record_call :: "Call \<Rightarrow> 's World \<Rightarrow> 's World" where
  "record_call c w = w\<lparr>calls := calls w @ [c]\<rparr>"

text \<open>
  \<open>Service\<close>: the field \<open>Hash\<close> is the struct's (\<open>nil\<close> is \<open>None\<close>). The other fields
  stand for the code the service calls that lies outside \<open>kv/passwords.go\<close>, as
  functions of the store's contents \<open>'s\<close> that a transaction sees: \<open>ID.Encode\<close>,
  \<open>ID.String\<close>, \<open>Service.findUserByID\<close> (both callers drop the user it returns, so
  only its error is kept), \<open>Tx.Bucket\<close> (returning a bucket handle \<open>'b\<close>),
  \<open>Bucket.Get\<close>, \<open>Bucket.Put\<close> (returning the contents after the write), and the
  bcrypt package.
\<close>

record ('s, 'b) Service =
  Hash :: "Crypt option"
  ID_Encode :: "ID \<Rightarrow> go_error + bytes"
  ID_String :: "ID \<Rightarrow> string"
  kv_findUserByID :: "'s \<Rightarrow> ID \<Rightarrow> go_error option"
  Tx_Bucket :: "'s \<Rightarrow> bytes \<Rightarrow> go_error + 'b"
  Bucket_Get :: "'s \<Rightarrow> 'b \<Rightarrow> bytes \<Rightarrow> go_error + bytes"
  Bucket_Put :: "'s \<Rightarrow> 'b \<Rightarrow> bytes \<Rightarrow> bytes \<Rightarrow> go_error + 's"
  bcrypt :: bcrypt_package

text \<open>The collaborators as the service calls them inside a transaction \<open>tx\<close>: the result,
  and the transaction with the call recorded (and, for a \<open>Put\<close> that succeeds, with the
  new contents).\<close>

definition findUserByID ::
  "('s, 'b) Service \<Rightarrow> 's World \<Rightarrow> ID \<Rightarrow> go_error option \<times> 's World" where
  "findUserByID s tx userID =
     (kv_findUserByID s (store tx) userID, record_call (CallFindUserByID userID) tx)"

definition Bucket ::
  "('s, 'b) Service \<Rightarrow> 's World \<Rightarrow> bytes \<Rightarrow> (go_error + 'b) \<times> 's World" where
  "Bucket s tx name = (Tx_Bucket s (store tx) name, record_call (CallBucket name) tx)"

definition Get ::
  "('s, 'b) Service \<Rightarrow> 's World \<Rightarrow> 'b \<Rightarrow> bytes \<Rightarrow> (go_error + bytes) \<times> 's World" where
  "Get s tx b key = (Bucket_Get s (store tx) b key, record_call (CallGet key) tx)"

definition Put ::
  "('s, 'b) Service \<Rightarrow> 's World \<Rightarrow> 'b \<Rightarrow> bytes \<Rightarrow> bytes \<Rightarrow> go_error option \<times> 's World" where
  "Put s tx b key val =
     (case Bucket_Put s (store tx) b key val of
        Inl err \<Rightarrow> (Some err, record_call (CallPut key val) tx)
      | Inr st \<Rightarrow> (None, (record_call (CallPut key val) tx)\<lparr>store := st\<rparr>))"

text \<open>
  Modelled from the spec: the transactional store \<open>s.kv\<close> (\<open>kv.Store\<close>, declared outside
  \<open>kv/passwords.go\<close>). \<open>View\<close> runs the function in a read-only transaction: the
  contents after it are the contents before it. \<open>Update\<close> runs it in one atomic write
  transaction: the writes are kept when the function returns \<open>nil\<close> and dropped when it
  returns an error. Both return what the function returns; a store that cannot open or
  commit a transaction is not modelled.
\<close>

definition View :: "'s World \<Rightarrow> ('s World \<Rightarrow> 'a \<times> 's World) \<Rightarrow> 'a \<times> 's World" where
  "View w fn = (case fn (record_call CallView w) of (r, tx) \<Rightarrow> (r, tx\<lparr>store := store w\<rparr>))"

definition Update ::
  "'s World \<Rightarrow> ('s World \<Rightarrow> influxdb_Error option \<times> 's World)
     \<Rightarrow> influxdb_Error option \<times> 's World" where
  "Update w fn =
     (case fn (record_call CallUpdate w) of
        (None, tx) \<Rightarrow> (None, tx)
      | (Some err, tx) \<Rightarrow> (Some err, tx\<lparr>store := store w\<rparr>))"

subsection \<open>The functions of kv/passwords.go\<close>

definition getPasswordHash ::
  "('s, 'b) Service \<Rightarrow> 's World \<Rightarrow> ID \<Rightarrow> (influxdb_Error + bytes) \<times> 's World" where
  "getPasswordHash s w userID =
     View w (\<lambda>tx.
       case ID_Encode s userID of
         Inl err \<Rightarrow> (Inl (CorruptUserIDError (ID_String s userID) err), tx)
       | Inr encodedID \<Rightarrow>
           (case findUserByID s tx userID of
              (Some err, tx) \<Rightarrow> (Inl EIncorrectUser, tx)
            | (None, tx) \<Rightarrow>
                (case Bucket s tx userpasswordBucket of
                   (Inl err, tx) \<Rightarrow> (Inl (UnavailablePasswordServiceError err), tx)
                 | (Inr b, tx) \<Rightarrow>
                     (case Get s tx b encodedID of
                        (Inl err, tx) \<Rightarrow> (Inl EIncorrectPassword, tx)
                      | (Inr passwordHash, tx) \<Rightarrow> (Inr passwordHash, tx)))))"

text \<open>\<open>hasher := s.Hash; if hasher == nil { hasher = &Bcrypt{} }\<close>, the lines that
  \<open>compareUserPassword\<close> and \<open>generatePasswordHash\<close> both start their hashing with.\<close>

definition hasher_of :: "('s, 'b) Service \<Rightarrow> Crypt" where
  "hasher_of s = (case Hash s of None \<Rightarrow> Bcrypt (bcrypt s) | Some h \<Rightarrow> h)"

definition compareUserPassword ::
  "('s, 'b) Service \<Rightarrow> 's World \<Rightarrow> ID \<Rightarrow> string \<Rightarrow> influxdb_Error option \<times> 's World" where
  "compareUserPassword s w userID password =
     (case getPasswordHash s w userID of
        (Inl err, w) \<Rightarrow> (Some err, w)
      | (Inr passwordHash, w) \<Rightarrow>
          (let hasher = hasher_of s;
               w = record_call (CallCompareHashAndPassword passwordHash password) w
           in case CompareHashAndPassword hasher passwordHash password of
                Some err \<Rightarrow> (Some EIncorrectPassword, w)
              | None \<Rightarrow> (None, w)))"

definition setPasswordHashTx ::
  "('s, 'b) Service \<Rightarrow> 's World \<Rightarrow> ID \<Rightarrow> bytes \<Rightarrow> influxdb_Error option \<times> 's World" where
  "setPasswordHashTx s tx userID hash =
     (case ID_Encode s userID of
        Inl err \<Rightarrow> (Some (CorruptUserIDError (ID_String s userID) err), tx)
      | Inr encodedID \<Rightarrow>
          (case findUserByID s tx userID of
             (Some err, tx) \<Rightarrow> (Some EIncorrectUser, tx)
           | (None, tx) \<Rightarrow>
               (case Bucket s tx userpasswordBucket of
                  (Inl err, tx) \<Rightarrow> (Some (UnavailablePasswordServiceError err), tx)
                | (Inr b, tx) \<Rightarrow>
                    (case Put s tx b encodedID hash of
                       (Some err, tx) \<Rightarrow> (Some (UnavailablePasswordServiceError err), tx)
                     | (None, tx) \<Rightarrow> (None, tx)))))"

definition setPasswordHash ::
  "('s, 'b) Service \<Rightarrow> 's World \<Rightarrow> ID \<Rightarrow> bytes \<Rightarrow> influxdb_Error option \<times> 's World" where
  "setPasswordHash s w userID hash = Update w (\<lambda>tx. setPasswordHashTx s tx userID hash)"

definition generatePasswordHash ::
  "('s, 'b) Service \<Rightarrow> 's World \<Rightarrow> string \<Rightarrow> (influxdb_Error + bytes) \<times> 's World" where
  "generatePasswordHash s w password =
     (if length password < MinPasswordLength then (Inl EShortPassword, w)
      else
        (let hasher = hasher_of s;
             w = record_call (CallGenerateFromPassword password (DefaultCost (bcrypt s))) w
         in case GenerateFromPassword hasher password (DefaultCost (bcrypt s)) of
              Inl err \<Rightarrow> (Inl (InternalPasswordHashError err), w)
            | Inr hash \<Rightarrow> (Inr hash, w)))"

definition CompareAndSetPassword ::
  "('s, 'b) Service \<Rightarrow> 's World \<Rightarrow> ID \<Rightarrow> string \<Rightarrow> string
     \<Rightarrow> influxdb_Error option \<times> 's World" where
  "CompareAndSetPassword s w userID old new =
     (case generatePasswordHash s w new of
        (Inl err, w) \<Rightarrow> (Some err, w)
      | (Inr newHash, w) \<Rightarrow>
          (case compareUserPassword s w userID old of
             (Some err, w) \<Rightarrow> (Some err, w)
           | (None, w) \<Rightarrow> setPasswordHash s w userID newHash))"

definition SetPassword ::
  "('s, 'b) Service \<Rightarrow> 's World \<Rightarrow> ID \<Rightarrow> string \<Rightarrow> influxdb_Error option \<times> 's World" where
  "SetPassword s w userID password =
     (case generatePasswordHash s w password of
        (Inl err, w) \<Rightarrow> (Some err, w)
      | (Inr hash, w) \<Rightarrow> setPasswordHash s w userID hash)"

definition ComparePassword ::
  "('s, 'b) Service \<Rightarrow> 's World \<Rightarrow> ID \<Rightarrow> string \<Rightarrow> influxdb_Error option \<times> 's World" where
  "ComparePassword s w userID password = compareUserPassword s w userID password"

subsection \<open>Notions the properties are stated with\<close>

text \<open>The calls an operation made: those of the world \<open>w'\<close> it ends in beyond those of
  the world \<open>w\<close> it started in.\<close>

definition new_calls :: "'s World \<Rightarrow> 's World \<Rightarrow> Call list" where
  "new_calls w w' = drop (length (calls w)) (calls w')"

text \<open>\<open>n\<close> calls of \<open>ComparePassword\<close> in a row, as a caller makes them: the results in
  order, and the world after the last.\<close>

fun ComparePassword_repeated ::
  "nat \<Rightarrow> ('s, 'b) Service \<Rightarrow> 's World \<Rightarrow> ID \<Rightarrow> string
     \<Rightarrow> influxdb_Error option list \<times> 's World" where
  "ComparePassword_repeated 0 s w userID password = ([], w)"
| "ComparePassword_repeated (Suc n) s w userID password =
     (case ComparePassword s w userID password of
        (r, w1) \<Rightarrow>
          (case ComparePassword_repeated n s w1 userID password of
             (rs, w2) \<Rightarrow> (r # rs, w2)))"

text \<open>
  What the round trips need of the store, for the credential bucket alone: a \<open>Put\<close>
  into it that succeeds leaves every user resolvable as before, and afterwards the
  credential bucket can be obtained and a \<open>Get\<close> of the key just written returns the
  value written. Nothing is asked of any other bucket, nor of the hashing strategy.
\<close>

definition credential_bucket_keeps_writes :: "('s, 'b) Service \<Rightarrow> bool" where
  "credential_bucket_keeps_writes s \<longleftrightarrow>
     (\<forall>st b key val st'.
        Tx_Bucket s st userpasswordBucket = Inr b \<and> Bucket_Put s st b key val = Inr st' \<longrightarrow>
          (\<forall>u. kv_findUserByID s st' u = kv_findUserByID s st u) \<and>
          (\<exists>b'. Tx_Bucket s st' userpasswordBucket = Inr b' \<and>
                Bucket_Get s st' b' key = Inr val))"

subsection \<open>A concrete instance: a store in memory and stand-ins for bcrypt\<close>

text \<open>The instance the properties are run on: users are a list of identifiers, the
  credential bucket an association list whose first entry for a key is the current one.
  The stand-in for bcrypt has the package's cost constants (4 and 10) and no
  cryptography: the digest of a plaintext is the plaintext behind a fixed prefix.\<close>

record inmem =
  inmem_users :: "ID list"
  inmem_passwords :: "(bytes \<times> bytes) list"

definition fake_bcrypt :: bcrypt_package where
  "fake_bcrypt =
     \<lparr>bcrypt_MinCost = 4,
      bcrypt_DefaultCost = 10,
      bcrypt_CompareHashAndPassword =
        (\<lambda>h p. if h = ''$2a$'' @ p then None
               else Some ''hashedPassword is not the hash of the given password''),
      bcrypt_GenerateFromPassword =
        (\<lambda>p cost. if 31 < cost then Inl ''cost is outside allowed range''
                  else Inr (''$2a$'' @ p))\<rparr>"

text \<open>\<open>ID.Encode\<close> and \<open>ID.String\<close> in the instance: the identifier 0 is invalid, any
  other is written as 16 hexadecimal digits; the string of an invalid identifier is
  empty.\<close>

definition hex_digit :: "nat \<Rightarrow> char" where
  "hex_digit n = ''0123456789abcdef'' ! n"

definition hex16 :: "ID \<Rightarrow> string" where
  "hex16 u =
     map (\<lambda>i. hex_digit (unat u div 16 ^ i mod 16))
       [15, 14, 13, 12, 11, 10, 9, 8, 7, 6, 5, 4, 3, 2, 1, 0]"

definition inmem_Encode :: "ID \<Rightarrow> go_error + bytes" where
  "inmem_Encode u = (if u = 0 then Inl ''invalid ID'' else Inr (hex16 u))"

definition inmem_String :: "ID \<Rightarrow> string" where
  "inmem_String u = (if u = 0 then [] else hex16 u)"

definition inmem_service :: "(inmem, bytes) Service" where
  "inmem_service =
     \<lparr>Hash = None,
      ID_Encode = inmem_Encode,
      ID_String = inmem_String,
      kv_findUserByID =
        (\<lambda>st u. if u \<in> set (inmem_users st) then None else Some ''user not found''),
      Tx_Bucket =
        (\<lambda>st name. if name = userpasswordBucket then Inr name else Inl ''bucket not found''),
      Bucket_Get =
        (\<lambda>st b key. case map_of (inmem_passwords st) key of
                       None \<Rightarrow> Inl ''key not found''
                     | Some v \<Rightarrow> Inr v),
      Bucket_Put =
        (\<lambda>st b key val. Inr (st\<lparr>inmem_passwords := (key, val) # inmem_passwords st\<rparr>)),
      bcrypt = fake_bcrypt\<rparr>"

text \<open>A world with the one user 1, who has no password yet, and the same world after
  \<open>SetPassword\<close> gave that user the password \<open>correcthorsebattery\<close>.\<close>

definition world0 :: "inmem World" where
  "world0 = \<lparr>store = \<lparr>inmem_users = [1], inmem_passwords = []\<rparr>, calls = []\<rparr>"

definition world1 :: "inmem World" where
  "world1 = snd (SetPassword inmem_service world0 1 ''correcthorsebattery'')"

text \<open>A second stand-in for bcrypt, which reads the first 72 bytes of a plaintext and no
  more (the cipher inside bcrypt takes a key of at most 72 bytes), the same service on
  top of it, and plaintexts of 73 bytes that differ in the last byte only.\<close>

definition trunc_bcrypt :: bcrypt_package where
  "trunc_bcrypt =
     \<lparr>bcrypt_MinCost = 4,
      bcrypt_DefaultCost = 10,
      bcrypt_CompareHashAndPassword =
        (\<lambda>h p. if h = ''$2a$'' @ take 72 p then None
               else Some ''hashedPassword is not the hash of the given password''),
      bcrypt_GenerateFromPassword =
        (\<lambda>p cost. if 31 < cost then Inl ''cost is outside allowed range''
                  else Inr (''$2a$'' @ take 72 p))\<rparr>"

definition trunc_service :: "(inmem, bytes) Service" where
  "trunc_service = inmem_service\<lparr>bcrypt := trunc_bcrypt\<rparr>"

definition long_password :: "char \<Rightarrow> string" where
  "long_password c = replicate 72 (CHR ''x'') @ [c]"

definition world_long :: "inmem World" where
  "world_long = snd (SetPassword trunc_service world0 1 (long_password (CHR ''a'')))"

text \<open>A hashing strategy that cannot generate a digest, and the service with it plugged
  in as \<open>Hash\<close>.\<close>

definition failing_Crypt :: Crypt where
  "failing_Crypt =
     \<lparr>CompareHashAndPassword = (\<lambda>h p. Some ''hashedPassword is too short''),
      GenerateFromPassword = (\<lambda>p cost. Inl ''entropy source unavailable'')\<rparr>"

definition failing_service :: "(inmem, bytes) Service" where
  "failing_service = inmem_service\<lparr>Hash := Some failing_Crypt\<rparr>"


section \<open>Properties\<close>

subsection \<open>What each function returns, branch by branch\<close>

lemma getPasswordHash_eq:
  "getPasswordHash s w u =
    (case ID_Encode s u of
       Inl err \<Rightarrow> (Inl (CorruptUserIDError (ID_String s u) err), w\<lparr>calls := calls w @ [CallView]\<rparr>)
     | Inr k \<Rightarrow>
        (case kv_findUserByID s (store w) u of
           Some err \<Rightarrow> (Inl EIncorrectUser, w\<lparr>calls := calls w @ [CallView, CallFindUserByID u]\<rparr>)
         | None \<Rightarrow>
            (case Tx_Bucket s (store w) userpasswordBucket of
               Inl err \<Rightarrow> (Inl (UnavailablePasswordServiceError err),
                  w\<lparr>calls := calls w @ [CallView, CallFindUserByID u, CallBucket userpasswordBucket]\<rparr>)
             | Inr b \<Rightarrow>
                 (case Bucket_Get s (store w) b k of
                    Inl err \<Rightarrow> (Inl EIncorrectPassword,
                       w\<lparr>calls := calls w @ [CallView, CallFindUserByID u, CallBucket userpasswordBucket, CallGet k]\<rparr>)
                  | Inr h \<Rightarrow> (Inr h,
                       w\<lparr>calls := calls w @ [CallView, CallFindUserByID u, CallBucket userpasswordBucket, CallGet k]\<rparr>)))))"
  by (simp add: getPasswordHash_def View_def Get_def Bucket_def findUserByID_def record_call_def
      split: sum.splits option.splits prod.splits)

lemma setPasswordHash_eq:
  "setPasswordHash s w u h =
    (case ID_Encode s u of
       Inl err \<Rightarrow> (Some (CorruptUserIDError (ID_String s u) err), w\<lparr>calls := calls w @ [CallUpdate]\<rparr>)
     | Inr k \<Rightarrow>
        (case kv_findUserByID s (store w) u of
           Some err \<Rightarrow> (Some EIncorrectUser, w\<lparr>calls := calls w @ [CallUpdate, CallFindUserByID u]\<rparr>)
         | None \<Rightarrow>
            (case Tx_Bucket s (store w) userpasswordBucket of
               Inl err \<Rightarrow> (Some (UnavailablePasswordServiceError err),
                  w\<lparr>calls := calls w @ [CallUpdate, CallFindUserByID u, CallBucket userpasswordBucket]\<rparr>)
             | Inr b \<Rightarrow>
                 (case Bucket_Put s (store w) b k h of
                    Inl err \<Rightarrow> (Some (UnavailablePasswordServiceError err),
                       w\<lparr>calls := calls w @ [CallUpdate, CallFindUserByID u, CallBucket userpasswordBucket, CallPut k h]\<rparr>)
                  | Inr st \<Rightarrow> (None,
                       \<lparr>store = st, calls = calls w @ [CallUpdate, CallFindUserByID u, CallBucket userpasswordBucket, CallPut k h]\<rparr>)))))"
  by (simp add: setPasswordHash_def setPasswordHashTx_def Update_def Put_def Bucket_def findUserByID_def record_call_def
      split: sum.splits option.splits prod.splits)

lemma generatePasswordHash_eq:
  "generatePasswordHash s w p =
     (if length p < MinPasswordLength then (Inl EShortPassword, w)
      else (case GenerateFromPassword (hasher_of s) p (DefaultCost (bcrypt s)) of
              Inl err \<Rightarrow> Inl (InternalPasswordHashError err)
            | Inr h \<Rightarrow> Inr h,
            w\<lparr>calls := calls w @ [CallGenerateFromPassword p (DefaultCost (bcrypt s))]\<rparr>))"
  by (simp add: generatePasswordHash_def Let_def record_call_def split: sum.splits)

lemma compareUserPassword_eq:
  "compareUserPassword s w u p =
     (case getPasswordHash s w u of
        (Inl err, w1) \<Rightarrow> (Some err, w1)
      | (Inr h, w1) \<Rightarrow>
          (case CompareHashAndPassword (hasher_of s) h p of
             Some err \<Rightarrow> Some EIncorrectPassword
           | None \<Rightarrow> None,
           w1\<lparr>calls := calls w1 @ [CallCompareHashAndPassword h p]\<rparr>))"
  by (simp add: compareUserPassword_def Let_def record_call_def split: sum.splits option.splits prod.splits)

subsection \<open>Consequences shared by the properties\<close>

lemma EIncorrectUser_neq: "EIncorrectUser \<noteq> EIncorrectPassword"
  by (simp add: EIncorrectUser_def EIncorrectPassword_def)

lemma CorruptUserIDError_neq: "CorruptUserIDError i err \<noteq> EIncorrectPassword"
  by (simp add: CorruptUserIDError_def EIncorrectPassword_def)

lemma compareUserPassword_store: "store (snd (compareUserPassword s w u p)) = store w"
  by (simp add: compareUserPassword_eq getPasswordHash_eq split: sum.splits option.splits prod.splits)

lemma compareUserPassword_calls:
  "\<exists>cs. calls (snd (compareUserPassword s w u p)) = calls w @ cs \<and>
        CallUpdate \<notin> set cs \<and> (\<forall>k h. CallPut k h \<notin> set cs)"
  by (simp add: compareUserPassword_eq getPasswordHash_eq split: sum.splits option.splits prod.splits)

lemma compareUserPassword_result:
  "store w' = store w \<Longrightarrow> fst (compareUserPassword s w' u p) = fst (compareUserPassword s w u p)"
  by (simp add: compareUserPassword_eq getPasswordHash_eq split: sum.splits option.splits prod.splits)

lemma compareUserPassword_after_write:
  assumes "credential_bucket_keeps_writes s"
    and "ID_Encode s u = Inr k" and "kv_findUserByID s st u = None"
    and "Tx_Bucket s st userpasswordBucket = Inr b"
    and "Bucket_Put s st b k h = Inr (store w')"
  shows "fst (compareUserPassword s w' u q) =
           (if CompareHashAndPassword (hasher_of s) h q = None then None
            else Some EIncorrectPassword)"
proof -
  from assms(1,4,5) have usr: "kv_findUserByID s (store w') u = kv_findUserByID s st u"
    and "\<exists>b'. Tx_Bucket s (store w') userpasswordBucket = Inr b' \<and>
               Bucket_Get s (store w') b' k = Inr h"
    unfolding credential_bucket_keeps_writes_def by blast+
  then obtain b' where bkt: "Tx_Bucket s (store w') userpasswordBucket = Inr b'"
    and get: "Bucket_Get s (store w') b' k = Inr h"
    by (elim exE conjE)
  from assms(2,3) usr bkt get show ?thesis
    by (simp add: compareUserPassword_eq getPasswordHash_eq split: option.splits)
qed

lemma SetPassword_eq:
  "SetPassword s w u p =
     (if length p < MinPasswordLength then (Some EShortPassword, w)
      else (case GenerateFromPassword (hasher_of s) p (DefaultCost (bcrypt s)) of
              Inl err \<Rightarrow> (Some (InternalPasswordHashError err),
                 w\<lparr>calls := calls w @ [CallGenerateFromPassword p (DefaultCost (bcrypt s))]\<rparr>)
            | Inr h \<Rightarrow> setPasswordHash s
                 (w\<lparr>calls := calls w @ [CallGenerateFromPassword p (DefaultCost (bcrypt s))]\<rparr>) u h))"
  by (simp add: SetPassword_def generatePasswordHash_eq split: sum.splits)

lemma CompareAndSetPassword_eq:
  "CompareAndSetPassword s w u old new =
     (if length new < MinPasswordLength then (Some EShortPassword, w)
      else (case GenerateFromPassword (hasher_of s) new (DefaultCost (bcrypt s)) of
              Inl err \<Rightarrow> (Some (InternalPasswordHashError err),
                 w\<lparr>calls := calls w @ [CallGenerateFromPassword new (DefaultCost (bcrypt s))]\<rparr>)
            | Inr h \<Rightarrow>
               (case compareUserPassword s
                  (w\<lparr>calls := calls w @ [CallGenerateFromPassword new (DefaultCost (bcrypt s))]\<rparr>) u old of
                  (Some err, w1) \<Rightarrow> (Some err, w1)
                | (None, w1) \<Rightarrow> setPasswordHash s w1 u h)))"
  by (simp add: CompareAndSetPassword_def generatePasswordHash_eq split: sum.splits)

lemma SetPassword_NoneD:
  assumes "fst (SetPassword s w u p) = None"
  shows "\<exists>h k b. MinPasswordLength \<le> length p \<and>
           GenerateFromPassword (hasher_of s) p (DefaultCost (bcrypt s)) = Inr h \<and>
           ID_Encode s u = Inr k \<and> kv_findUserByID s (store w) u = None \<and>
           Tx_Bucket s (store w) userpasswordBucket = Inr b \<and>
           Bucket_Put s (store w) b k h = Inr (store (snd (SetPassword s w u p)))"
  using assms
  by (auto simp add: SetPassword_eq setPasswordHash_eq split: if_splits sum.splits option.splits)

lemma CompareAndSetPassword_NoneD:
  assumes "fst (CompareAndSetPassword s w u old new) = None"
  shows "\<exists>h k b. MinPasswordLength \<le> length new \<and>
           GenerateFromPassword (hasher_of s) new (DefaultCost (bcrypt s)) = Inr h \<and>
           fst (compareUserPassword s w u old) = None \<and>
           ID_Encode s u = Inr k \<and> kv_findUserByID s (store w) u = None \<and>
           Tx_Bucket s (store w) userpasswordBucket = Inr b \<and>
           Bucket_Put s (store w) b k h = Inr (store (snd (CompareAndSetPassword s w u old new)))"
  using assms
  by (auto simp add: CompareAndSetPassword_eq compareUserPassword_eq getPasswordHash_eq
      setPasswordHash_eq split: if_splits sum.splits option.splits)

lemma new_calls_append: "calls w' = calls w @ cs \<Longrightarrow> new_calls w w' = cs"
  by (simp add: new_calls_def)

lemma CompareAndSetPassword_old_fails:
  assumes "fst (compareUserPassword s w u old) \<noteq> None"
  shows "\<exists>cs. fst (CompareAndSetPassword s w u old new) \<noteq> None \<and>
           store (snd (CompareAndSetPassword s w u old new)) = store w \<and>
           calls (snd (CompareAndSetPassword s w u old new)) = calls w @ cs \<and>
           CallUpdate \<notin> set cs \<and> (\<forall>k h. CallPut k h \<notin> set cs)"
proof (cases "length new < MinPasswordLength")
  case True
  then have "CompareAndSetPassword s w u old new = (Some EShortPassword, w)"
    by (simp add: CompareAndSetPassword_eq)
  then show ?thesis by simp
next
  case False
  let ?g = "CallGenerateFromPassword new (DefaultCost (bcrypt s))"
  let ?w1 = "w\<lparr>calls := calls w @ [?g]\<rparr>"
  show ?thesis
  proof (cases "GenerateFromPassword (hasher_of s) new (DefaultCost (bcrypt s))")
    case (Inl err)
    with False have "CompareAndSetPassword s w u old new =
        (Some (InternalPasswordHashError err), ?w1)"
      by (simp add: CompareAndSetPassword_eq)
    then show ?thesis by simp
  next
    case (Inr h)
    obtain r w2 where c: "compareUserPassword s ?w1 u old = (r, w2)"
      by (cases "compareUserPassword s ?w1 u old")
    have "fst (compareUserPassword s ?w1 u old) = fst (compareUserPassword s w u old)"
      by (rule compareUserPassword_result) simp
    with assms c obtain e where r: "r = Some e" by (cases r) simp_all
    from False Inr c r have cas: "CompareAndSetPassword s w u old new = (Some e, w2)"
      by (simp add: CompareAndSetPassword_eq)
    from compareUserPassword_store [of s ?w1 u old] c have st: "store w2 = store w" by simp
    from compareUserPassword_calls [of s ?w1 u old] c obtain cs where
      cs: "calls w2 = calls ?w1 @ cs" "CallUpdate \<notin> set cs" "\<forall>k h. CallPut k h \<notin> set cs"
      by auto
    from cs(1) have "calls w2 = calls w @ (?g # cs)" by simp
    moreover from cs(2) have "CallUpdate \<notin> set (?g # cs)" by simp
    moreover from cs(3) have "\<forall>k h. CallPut k h \<notin> set (?g # cs)" by simp
    ultimately show ?thesis using cas st by (intro exI [of _ "?g # cs"]) simp
  qed
qed

lemma ComparePassword_repeated_props:
  "\<exists>cs. store (snd (ComparePassword_repeated n s w u p)) = store w \<and>
         calls (snd (ComparePassword_repeated n s w u p)) = calls w @ cs \<and>
         CallUpdate \<notin> set cs \<and> (\<forall>k h. CallPut k h \<notin> set cs) \<and>
         length (fst (ComparePassword_repeated n s w u p)) = n \<and>
         (\<forall>r \<in> set (fst (ComparePassword_repeated n s w u p)).
            r = fst (ComparePassword s w u p))"
proof (induction n arbitrary: w)
  case 0
  show ?case by simp
next
  case (Suc n)
  obtain r w1 where c: "ComparePassword s w u p = (r, w1)"
    by (cases "ComparePassword s w u p")
  obtain rs w2 where rep: "ComparePassword_repeated n s w1 u p = (rs, w2)"
    by (cases "ComparePassword_repeated n s w1 u p")
  from c compareUserPassword_store [of s w u p] have st1: "store w1 = store w"
    by (simp add: ComparePassword_def)
  from c compareUserPassword_calls [of s w u p] obtain cs1 where
    cs1: "calls w1 = calls w @ cs1" "CallUpdate \<notin> set cs1" "\<forall>k h. CallPut k h \<notin> set cs1"
    by (auto simp add: ComparePassword_def)
  from Suc.IH [of w1] rep obtain cs2 where
    st2: "store w2 = store w1" and cs2: "calls w2 = calls w1 @ cs2"
    and nu: "CallUpdate \<notin> set cs2" and np: "\<forall>k h. CallPut k h \<notin> set cs2"
    and len: "length rs = n" and res: "\<forall>r \<in> set rs. r = fst (ComparePassword s w1 u p)"
    by auto
  have same: "fst (ComparePassword s w1 u p) = fst (ComparePassword s w u p)"
    unfolding ComparePassword_def by (rule compareUserPassword_result [OF st1])
  have val: "ComparePassword_repeated (Suc n) s w u p = (r # rs, w2)"
    by (simp add: c rep)
  from c have r: "r = fst (ComparePassword s w u p)" by simp
  show ?case
  proof (intro exI [of _ "cs1 @ cs2"] conjI)
    show "store (snd (ComparePassword_repeated (Suc n) s w u p)) = store w"
      unfolding val by (simp add: st2 st1)
    show "calls (snd (ComparePassword_repeated (Suc n) s w u p)) = calls w @ cs1 @ cs2"
      unfolding val by (simp add: cs2 cs1(1))
    show "CallUpdate \<notin> set (cs1 @ cs2)" using cs1(2) nu by simp
    show "\<forall>k h. CallPut k h \<notin> set (cs1 @ cs2)" using cs1(3) np by simp
    show "length (fst (ComparePassword_repeated (Suc n) s w u p)) = Suc n"
      unfolding val by (simp add: len)
    show "\<forall>r \<in> set (fst (ComparePassword_repeated (Suc n) s w u p)).
            r = fst (ComparePassword s w u p)"
      unfolding val using res r by (simp add: same)
  qed
qed


subsection \<open>The concrete instance\<close>

lemma hex16_1: "hex16 1 = ''0000000000000001''"
  by (simp add: hex16_def hex_digit_def)

lemma hex16_2: "hex16 2 = ''0000000000000002''"
  by (simp add: hex16_def hex_digit_def)

lemma inmem_Encode_simps:
  "inmem_Encode 0 = Inl ''invalid ID''"
  "inmem_Encode 1 = Inr ''0000000000000001''"
  "inmem_Encode 2 = Inr ''0000000000000002''"
  by (simp_all add: inmem_Encode_def hex16_1 hex16_2)

lemma inmem_String_simps:
  "inmem_String 0 = []"
  "inmem_String 1 = ''0000000000000001''"
  "inmem_String 2 = ''0000000000000002''"
  by (simp_all add: inmem_String_def hex16_1 hex16_2)

lemmas inmem_simps = inmem_service_def fake_bcrypt_def inmem_Encode_simps inmem_String_simps
  hasher_of_def Bcrypt_def Bcrypt_GenerateFromPassword_def Bcrypt_CompareHashAndPassword_def
  DefaultCost_def userpasswordBucket_def MinPasswordLength_def

lemma SetPassword_world0:
  "SetPassword inmem_service world0 1 ''correcthorsebattery'' =
     (None,
      \<lparr>store = \<lparr>inmem_users = [1],
                 inmem_passwords = [(''0000000000000001'', ''$2a$correcthorsebattery'')]\<rparr>,
       calls = [CallGenerateFromPassword ''correcthorsebattery'' 10, CallUpdate,
                CallFindUserByID 1, CallBucket ''userspasswordv1'',
                CallPut ''0000000000000001'' ''$2a$correcthorsebattery'']\<rparr>)"
  by (simp add: SetPassword_def generatePasswordHash_eq setPasswordHash_eq world0_def inmem_simps)

lemma world1_eq:
  "world1 =
     \<lparr>store = \<lparr>inmem_users = [1],
                inmem_passwords = [(''0000000000000001'', ''$2a$correcthorsebattery'')]\<rparr>,
      calls = [CallGenerateFromPassword ''correcthorsebattery'' 10, CallUpdate,
               CallFindUserByID 1, CallBucket ''userspasswordv1'',
               CallPut ''0000000000000001'' ''$2a$correcthorsebattery'']\<rparr>"
  by (simp add: world1_def SetPassword_world0)

lemma inmem_credential_bucket_keeps_writes: "credential_bucket_keeps_writes inmem_service"
  by (simp add: credential_bucket_keeps_writes_def inmem_service_def)

lemma trunc_credential_bucket_keeps_writes: "credential_bucket_keeps_writes trunc_service"
  by (simp add: credential_bucket_keeps_writes_def trunc_service_def inmem_service_def)

lemma ComparePassword_world1_right:
  "fst (ComparePassword inmem_service world1 1 ''correcthorsebattery'') = None"
  by (simp add: ComparePassword_def compareUserPassword_eq getPasswordHash_eq world1_eq inmem_simps)

lemma ComparePassword_world1_wrong:
  "fst (ComparePassword inmem_service world1 1 ''wrongpassword'') = Some EIncorrectPassword"
  by (simp add: ComparePassword_def compareUserPassword_eq getPasswordHash_eq world1_eq inmem_simps)

lemma calls_world0: "calls world0 = []"
  by (simp add: world0_def)

lemma SetPassword_world0_unknown:
  "SetPassword inmem_service world0 2 ''correcthorsebattery'' =
     (Some EIncorrectUser,
      \<lparr>store = store world0,
       calls = [CallGenerateFromPassword ''correcthorsebattery'' 10, CallUpdate,
                CallFindUserByID 2]\<rparr>)"
  by (simp add: SetPassword_eq setPasswordHash_eq world0_def inmem_simps)

lemma CompareAndSetPassword_world1:
  "CompareAndSetPassword inmem_service world1 1 ''correcthorsebattery'' ''newpassword'' =
     (None,
      \<lparr>store = \<lparr>inmem_users = [1],
                 inmem_passwords = [(''0000000000000001'', ''$2a$newpassword''),
                                    (''0000000000000001'', ''$2a$correcthorsebattery'')]\<rparr>,
       calls = calls world1 @
         [CallGenerateFromPassword ''newpassword'' 10,
          CallView, CallFindUserByID 1, CallBucket ''userspasswordv1'',
          CallGet ''0000000000000001'',
          CallCompareHashAndPassword ''$2a$correcthorsebattery'' ''correcthorsebattery'',
          CallUpdate, CallFindUserByID 1, CallBucket ''userspasswordv1'',
          CallPut ''0000000000000001'' ''$2a$newpassword'']\<rparr>)"
  by (simp add: CompareAndSetPassword_eq compareUserPassword_eq getPasswordHash_eq
      setPasswordHash_eq world1_eq inmem_simps)

lemma CompareAndSetPassword_world1_wrong:
  "CompareAndSetPassword inmem_service world1 1 ''wrongpassword'' ''newpassword'' =
     (Some EIncorrectPassword,
      \<lparr>store = store world1,
       calls = calls world1 @
         [CallGenerateFromPassword ''newpassword'' 10,
          CallView, CallFindUserByID 1, CallBucket ''userspasswordv1'',
          CallGet ''0000000000000001'',
          CallCompareHashAndPassword ''$2a$correcthorsebattery'' ''wrongpassword'']\<rparr>)"
  by (simp add: CompareAndSetPassword_eq compareUserPassword_eq getPasswordHash_eq
      world1_eq inmem_simps)

lemmas trunc_simps = trunc_service_def trunc_bcrypt_def inmem_service_def
  inmem_Encode_simps inmem_String_simps
  hasher_of_def Bcrypt_def Bcrypt_GenerateFromPassword_def Bcrypt_CompareHashAndPassword_def
  DefaultCost_def userpasswordBucket_def MinPasswordLength_def

lemma long_password_neq: "long_password (CHR ''b'') \<noteq> long_password (CHR ''a'')"
  by (simp add: long_password_def)

lemma length_long_password: "length (long_password c) = 73"
  by (simp add: long_password_def)

lemma take_long_password: "take 72 (long_password c) = replicate 72 (CHR ''x'')"
  by (simp add: long_password_def)

lemma SetPassword_trunc:
  "SetPassword trunc_service world0 1 (long_password (CHR ''a'')) =
     (None,
      \<lparr>store = \<lparr>inmem_users = [1],
                 inmem_passwords =
                   [(''0000000000000001'', ''$2a$'' @ replicate 72 (CHR ''x''))]\<rparr>,
       calls = [CallGenerateFromPassword (long_password (CHR ''a'')) 10, CallUpdate,
                CallFindUserByID 1, CallBucket ''userspasswordv1'',
                CallPut ''0000000000000001'' (''$2a$'' @ replicate 72 (CHR ''x''))]\<rparr>)"
  by (simp add: SetPassword_eq setPasswordHash_eq world0_def trunc_simps
      length_long_password take_long_password)

lemma world_long_eq:
  "world_long =
      \<lparr>store = \<lparr>inmem_users = [1],
                 inmem_passwords =
                   [(''0000000000000001'', ''$2a$'' @ replicate 72 (CHR ''x''))]\<rparr>,
       calls = [CallGenerateFromPassword (long_password (CHR ''a'')) 10, CallUpdate,
                CallFindUserByID 1, CallBucket ''userspasswordv1'',
                CallPut ''0000000000000001'' (''$2a$'' @ replicate 72 (CHR ''x''))]\<rparr>"
  by (simp add: world_long_def SetPassword_trunc)

lemma ComparePassword_trunc:
  "fst (ComparePassword trunc_service world_long 1 (long_password c)) = None"
  by (simp add: ComparePassword_def compareUserPassword_eq getPasswordHash_eq world_long_eq
      trunc_simps take_long_password)

lemma CompareAndSetPassword_trunc:
  "CompareAndSetPassword trunc_service world_long 1
       (long_password (CHR ''a'')) (long_password (CHR ''b'')) =
     (None,
      \<lparr>store = \<lparr>inmem_users = [1],
                 inmem_passwords =
                   [(''0000000000000001'', ''$2a$'' @ replicate 72 (CHR ''x'')),
                    (''0000000000000001'', ''$2a$'' @ replicate 72 (CHR ''x''))]\<rparr>,
       calls = calls world_long @
         [CallGenerateFromPassword (long_password (CHR ''b'')) 10,
          CallView, CallFindUserByID 1, CallBucket ''userspasswordv1'',
          CallGet ''0000000000000001'',
          CallCompareHashAndPassword (''$2a$'' @ replicate 72 (CHR ''x''))
            (long_password (CHR ''a'')),
          CallUpdate, CallFindUserByID 1, CallBucket ''userspasswordv1'',
          CallPut ''0000000000000001'' (''$2a$'' @ replicate 72 (CHR ''x''))]\<rparr>)"
  by (simp add: CompareAndSetPassword_eq compareUserPassword_eq getPasswordHash_eq
      setPasswordHash_eq world_long_eq trunc_simps length_long_password take_long_password)

subsection \<open>The errors of ComparePassword\<close>

text \<open>
  C1, as the code has it. \<open>ComparePassword\<close> answers \<open>EIncorrectPassword\<close> when the
  read of the digest fails, which is also how a user without a credential record shows.
  The two earlier failures keep errors of their own: an identifier that cannot be
  encoded gives \<open>CorruptUserIDError\<close>, and a user that cannot be resolved gives
  \<open>EIncorrectUser\<close>; both differ from \<open>EIncorrectPassword\<close>, so a caller can tell
  these causes apart.
\<close>

theorem ComparePassword_error_by_cause:
  "(\<forall>err. ID_Encode s u = Inl err \<longrightarrow>
      fst (ComparePassword s w u p) = Some (CorruptUserIDError (ID_String s u) err) \<and>
      CorruptUserIDError (ID_String s u) err \<noteq> EIncorrectPassword) \<and>
   (\<forall>k err. ID_Encode s u = Inr k \<and> kv_findUserByID s (store w) u = Some err \<longrightarrow>
      fst (ComparePassword s w u p) = Some EIncorrectUser \<and>
      EIncorrectUser \<noteq> EIncorrectPassword) \<and>
   (\<forall>k b err. ID_Encode s u = Inr k \<and> kv_findUserByID s (store w) u = None \<and>
      Tx_Bucket s (store w) userpasswordBucket = Inr b \<and>
      Bucket_Get s (store w) b k = Inl err \<longrightarrow>
      fst (ComparePassword s w u p) = Some EIncorrectPassword)"
  by (simp add: ComparePassword_def compareUserPassword_eq getPasswordHash_eq
      EIncorrectUser_neq CorruptUserIDError_neq)

theorem ComparePassword_error_by_cause_witness:
  "fst (ComparePassword inmem_service world0 0 ''correcthorsebattery'') =
     Some (CorruptUserIDError [] ''invalid ID'') \<and>
   fst (ComparePassword inmem_service world0 2 ''correcthorsebattery'') = Some EIncorrectUser \<and>
   fst (ComparePassword inmem_service world0 1 ''correcthorsebattery'') = Some EIncorrectPassword"
proof -
  have e0: "ID_Encode inmem_service 0 = Inl ''invalid ID''"
    and s0: "ID_String inmem_service 0 = []"
    and e2: "ID_Encode inmem_service 2 = Inr ''0000000000000002''"
    and u2: "kv_findUserByID inmem_service (store world0) 2 = Some ''user not found''"
    and e1: "ID_Encode inmem_service 1 = Inr ''0000000000000001''"
    and u1: "kv_findUserByID inmem_service (store world0) 1 = None"
    and b1: "Tx_Bucket inmem_service (store world0) userpasswordBucket = Inr userpasswordBucket"
    and g1: "Bucket_Get inmem_service (store world0) userpasswordBucket ''0000000000000001'' =
               Inl ''key not found''"
    by (simp_all add: inmem_service_def inmem_Encode_simps inmem_String_simps world0_def)
  note c = ComparePassword_error_by_cause [of inmem_service _ world0 "''correcthorsebattery''"]
  from c [of 0] e0 s0 have "fst (ComparePassword inmem_service world0 0 ''correcthorsebattery'') =
     Some (CorruptUserIDError [] ''invalid ID'')" by simp
  moreover from c [of 2] e2 u2
  have "fst (ComparePassword inmem_service world0 2 ''correcthorsebattery'') = Some EIncorrectUser"
    by simp
  moreover from c [of 1] e1 u1 b1 g1
  have "fst (ComparePassword inmem_service world0 1 ''correcthorsebattery'') = Some EIncorrectPassword"
    by blast
  ultimately show ?thesis by simp
qed

text \<open>
  C1 as the specification words it, with one error for all four causes, fails in the
  instance: user 2 does not exist and the answer is \<open>EIncorrectUser\<close>; identifier 0
  cannot be encoded and the answer is a \<open>CorruptUserIDError\<close>.
\<close>

theorem ComparePassword_single_error_counterexample:
  "kv_findUserByID inmem_service (store world0) 2 = Some ''user not found'' \<and>
   fst (ComparePassword inmem_service world0 2 ''correcthorsebattery'') \<noteq> Some EIncorrectPassword \<and>
   ID_Encode inmem_service 0 = Inl ''invalid ID'' \<and>
   fst (ComparePassword inmem_service world0 0 ''correcthorsebattery'') \<noteq> Some EIncorrectPassword"
  by (simp add: ComparePassword_def compareUserPassword_eq getPasswordHash_eq world0_def
      inmem_service_def inmem_Encode_simps inmem_String_simps
      EIncorrectUser_def EIncorrectPassword_def CorruptUserIDError_def)


subsection \<open>Writes of a digest\<close>

lemma SetPassword_write:
  "(CallPut k h \<in> set (new_calls w (snd (SetPassword s w u p))) \<longrightarrow>
      MinPasswordLength \<le> length p \<and>
      GenerateFromPassword (hasher_of s) p (DefaultCost (bcrypt s)) = Inr h \<and>
      ID_Encode s u = Inr k \<and>
      kv_findUserByID s (store w) u = None \<and>
      new_calls w (snd (SetPassword s w u p)) =
        [CallGenerateFromPassword p (DefaultCost (bcrypt s)), CallUpdate, CallFindUserByID u,
         CallBucket userpasswordBucket, CallPut k h]) \<and>
   (store (snd (SetPassword s w u p)) \<noteq> store w \<longrightarrow>
      (\<exists>k h. CallPut k h \<in> set (new_calls w (snd (SetPassword s w u p)))))"
  by (simp add: SetPassword_eq setPasswordHash_eq new_calls_def split: sum.splits option.splits)

lemma CompareAndSetPassword_write:
  "(CallPut k h \<in> set (new_calls w (snd (CompareAndSetPassword s w u old new))) \<longrightarrow>
      MinPasswordLength \<le> length new \<and>
      GenerateFromPassword (hasher_of s) new (DefaultCost (bcrypt s)) = Inr h \<and>
      ID_Encode s u = Inr k \<and>
      kv_findUserByID s (store w) u = None \<and>
      (\<exists>stored. new_calls w (snd (CompareAndSetPassword s w u old new)) =
        [CallGenerateFromPassword new (DefaultCost (bcrypt s)),
         CallView, CallFindUserByID u, CallBucket userpasswordBucket, CallGet k,
         CallCompareHashAndPassword stored old,
         CallUpdate, CallFindUserByID u, CallBucket userpasswordBucket, CallPut k h])) \<and>
   (store (snd (CompareAndSetPassword s w u old new)) \<noteq> store w \<longrightarrow>
      (\<exists>k h. CallPut k h \<in> set (new_calls w (snd (CompareAndSetPassword s w u old new)))))"
  by (simp add: CompareAndSetPassword_eq compareUserPassword_eq getPasswordHash_eq
      setPasswordHash_eq new_calls_def split: sum.splits option.splits)

text \<open>
  C2. In both writing operations a digest reaches the store only after the checks.
  If \<open>SetPassword\<close> called \<open>Put\<close> with key \<open>k\<close> and digest \<open>h\<close>, then the
  plaintext has at least \<open>MinPasswordLength\<close> bytes, \<open>h\<close> is the digest generated
  from it, \<open>k\<close> is the encoded identifier, the user was resolved, and the calls were
  exactly: generate, open the write transaction, resolve the user, get the bucket, put.
  The same holds of \<open>CompareAndSetPassword\<close> and its new plaintext, where the old
  password was read and verified in between. In both, the contents of the store differ
  afterwards only if such a \<open>Put\<close> was called.
\<close>

theorem digest_written_only_after_checks:
  "((CallPut k h \<in> set (new_calls w (snd (SetPassword s w u p))) \<longrightarrow>
       MinPasswordLength \<le> length p \<and>
       GenerateFromPassword (hasher_of s) p (DefaultCost (bcrypt s)) = Inr h \<and>
       ID_Encode s u = Inr k \<and>
       kv_findUserByID s (store w) u = None \<and>
       new_calls w (snd (SetPassword s w u p)) =
         [CallGenerateFromPassword p (DefaultCost (bcrypt s)), CallUpdate, CallFindUserByID u,
          CallBucket userpasswordBucket, CallPut k h]) \<and>
    (store (snd (SetPassword s w u p)) \<noteq> store w \<longrightarrow>
       (\<exists>k h. CallPut k h \<in> set (new_calls w (snd (SetPassword s w u p)))))) \<and>
   ((CallPut k h \<in> set (new_calls w (snd (CompareAndSetPassword s w u old new))) \<longrightarrow>
       MinPasswordLength \<le> length new \<and>
       GenerateFromPassword (hasher_of s) new (DefaultCost (bcrypt s)) = Inr h \<and>
       ID_Encode s u = Inr k \<and>
       kv_findUserByID s (store w) u = None \<and>
       (\<exists>stored. new_calls w (snd (CompareAndSetPassword s w u old new)) =
         [CallGenerateFromPassword new (DefaultCost (bcrypt s)),
          CallView, CallFindUserByID u, CallBucket userpasswordBucket, CallGet k,
          CallCompareHashAndPassword stored old,
          CallUpdate, CallFindUserByID u, CallBucket userpasswordBucket, CallPut k h])) \<and>
    (store (snd (CompareAndSetPassword s w u old new)) \<noteq> store w \<longrightarrow>
       (\<exists>k h. CallPut k h \<in> set (new_calls w (snd (CompareAndSetPassword s w u old new))))))"
  by (rule conjI [OF SetPassword_write CompareAndSetPassword_write])

theorem digest_written_only_after_checks_witness:
  "CallPut ''0000000000000001'' ''$2a$correcthorsebattery'' \<in>
     set (new_calls world0 (snd (SetPassword inmem_service world0 1 ''correcthorsebattery''))) \<and>
   MinPasswordLength \<le> length ''correcthorsebattery'' \<and>
   kv_findUserByID inmem_service (store world0) 1 = None \<and>
   CallPut ''0000000000000001'' ''$2a$newpassword'' \<in>
     set (new_calls world1
       (snd (CompareAndSetPassword inmem_service world1 1 ''correcthorsebattery'' ''newpassword''))) \<and>
   MinPasswordLength \<le> length ''newpassword'' \<and>
   kv_findUserByID inmem_service (store world1) 1 = None \<and>
   store (snd (SetPassword inmem_service world0 1 ''correcthorsebattery'')) \<noteq> store world0 \<and>
   (\<exists>k h. CallPut k h \<in>
      set (new_calls world0 (snd (SetPassword inmem_service world0 1 ''correcthorsebattery'')))) \<and>
   store (snd (CompareAndSetPassword inmem_service world1 1 ''correcthorsebattery''
                 ''newpassword'')) \<noteq> store world1 \<and>
   (\<exists>k h. CallPut k h \<in>
      set (new_calls world1
        (snd (CompareAndSetPassword inmem_service world1 1 ''correcthorsebattery''
                ''newpassword''))))"
proof -
  have p1: "CallPut ''0000000000000001'' ''$2a$correcthorsebattery'' \<in>
     set (new_calls world0 (snd (SetPassword inmem_service world0 1 ''correcthorsebattery'')))"
    by (simp add: SetPassword_world0 new_calls_def calls_world0)
  have p2: "CallPut ''0000000000000001'' ''$2a$newpassword'' \<in>
     set (new_calls world1
       (snd (CompareAndSetPassword inmem_service world1 1 ''correcthorsebattery'' ''newpassword'')))"
    by (simp add: CompareAndSetPassword_world1 new_calls_def)
  note t1 = digest_written_only_after_checks
    [of "''0000000000000001''" "''$2a$correcthorsebattery''" world0 inmem_service 1
        "''correcthorsebattery''" "''correcthorsebattery''" "''newpassword''",
     THEN conjunct1, THEN conjunct1, THEN mp, OF p1]
  note t2 = digest_written_only_after_checks
    [of "''0000000000000001''" "''$2a$newpassword''" world1 inmem_service 1
        "''correcthorsebattery''" "''correcthorsebattery''" "''newpassword''",
     THEN conjunct2, THEN conjunct1, THEN mp, OF p2]
  from t1 have a1: "MinPasswordLength \<le> length ''correcthorsebattery''"
    by (rule conjunct1)
  from t1 [THEN conjunct2, THEN conjunct2, THEN conjunct2]
  have b1: "kv_findUserByID inmem_service (store world0) 1 = None"
    by (rule conjunct1)
  from t2 have a2: "MinPasswordLength \<le> length ''newpassword''"
    by (rule conjunct1)
  from t2 [THEN conjunct2, THEN conjunct2, THEN conjunct2]
  have b2: "kv_findUserByID inmem_service (store world1) 1 = None"
    by (rule conjunct1)
  have c1: "store (snd (SetPassword inmem_service world0 1 ''correcthorsebattery'')) \<noteq>
              store world0"
    by (simp add: SetPassword_world0) (simp add: world0_def)
  have c2: "store (snd (CompareAndSetPassword inmem_service world1 1 ''correcthorsebattery''
                          ''newpassword'')) \<noteq> store world1"
    by (simp add: CompareAndSetPassword_world1) (simp add: world1_eq)
  note d1 = digest_written_only_after_checks
    [of "''0000000000000001''" "''$2a$correcthorsebattery''" world0 inmem_service 1
        "''correcthorsebattery''" "''correcthorsebattery''" "''newpassword''",
     THEN conjunct1, THEN conjunct2, THEN mp, OF c1]
  note d2 = digest_written_only_after_checks
    [of "''0000000000000001''" "''$2a$newpassword''" world1 inmem_service 1
        "''correcthorsebattery''" "''correcthorsebattery''" "''newpassword''",
     THEN conjunct2, THEN conjunct2, THEN mp, OF c2]
  from p1 a1 b1 p2 a2 b2 c1 d1 c2 d2 show ?thesis by (intro conjI)
qed


subsection \<open>Setting a password, then comparing\<close>

text \<open>
  C3, as the code has it. A \<open>SetPassword\<close> of \<open>p\<close> for \<open>u\<close> succeeds only for a user
  that resolves and a plaintext of at least \<open>MinPasswordLength\<close> bytes. After it, on a
  store whose credential bucket keeps what is put into it, \<open>ComparePassword\<close> of any
  plaintext \<open>q\<close> succeeds exactly when the hashing strategy accepts \<open>q\<close> for the digest
  it generated from \<open>p\<close>, and fails with \<open>EIncorrectPassword\<close> otherwise. The service
  adds nothing to the strategy's verdict: \<open>p\<close> itself passes when the strategy accepts
  the plaintext it hashed, and another plaintext fails when the strategy rejects it.
\<close>

theorem SetPassword_then_ComparePassword:
  assumes "credential_bucket_keeps_writes s"
    and "fst (SetPassword s w u p) = None"
  shows "MinPasswordLength \<le> length p \<and> kv_findUserByID s (store w) u = None \<and>
         (\<exists>h. GenerateFromPassword (hasher_of s) p (DefaultCost (bcrypt s)) = Inr h \<and>
              (\<forall>q. fst (ComparePassword s (snd (SetPassword s w u p)) u q) =
                     (if CompareHashAndPassword (hasher_of s) h q = None then None
                      else Some EIncorrectPassword)))"
proof -
  from SetPassword_NoneD [OF assms(2)] obtain h k b where
    len: "MinPasswordLength \<le> length p"
    and gen: "GenerateFromPassword (hasher_of s) p (DefaultCost (bcrypt s)) = Inr h"
    and enc: "ID_Encode s u = Inr k" and usr: "kv_findUserByID s (store w) u = None"
    and bkt: "Tx_Bucket s (store w) userpasswordBucket = Inr b"
    and put: "Bucket_Put s (store w) b k h = Inr (store (snd (SetPassword s w u p)))"
    by (elim exE conjE)
  have "fst (ComparePassword s (snd (SetPassword s w u p)) u q) =
          (if CompareHashAndPassword (hasher_of s) h q = None then None
           else Some EIncorrectPassword)" for q
    unfolding ComparePassword_def
    by (rule compareUserPassword_after_write [OF assms(1) enc usr bkt put])
  then have "\<forall>q. fst (ComparePassword s (snd (SetPassword s w u p)) u q) =
          (if CompareHashAndPassword (hasher_of s) h q = None then None
           else Some EIncorrectPassword)" ..
  with gen have "\<exists>h. GenerateFromPassword (hasher_of s) p (DefaultCost (bcrypt s)) = Inr h \<and>
              (\<forall>q. fst (ComparePassword s (snd (SetPassword s w u p)) u q) =
                     (if CompareHashAndPassword (hasher_of s) h q = None then None
                      else Some EIncorrectPassword))"
    by (intro exI [of _ h] conjI)
  with len usr show ?thesis by (intro conjI)
qed

theorem SetPassword_then_ComparePassword_witness:
  "fst (SetPassword inmem_service world0 1 ''correcthorsebattery'') = None \<and>
   fst (ComparePassword inmem_service
          (snd (SetPassword inmem_service world0 1 ''correcthorsebattery'')) 1
          ''correcthorsebattery'') = None \<and>
   fst (ComparePassword inmem_service
          (snd (SetPassword inmem_service world0 1 ''correcthorsebattery'')) 1
          ''wrongpassword'') = Some EIncorrectPassword"
proof -
  have ok: "fst (SetPassword inmem_service world0 1 ''correcthorsebattery'') = None"
    by (simp add: SetPassword_world0)
  have gen: "GenerateFromPassword (hasher_of inmem_service) ''correcthorsebattery''
               (DefaultCost (bcrypt inmem_service)) = Inr ''$2a$correcthorsebattery''"
    by (simp add: inmem_simps)
  have yes: "CompareHashAndPassword (hasher_of inmem_service) ''$2a$correcthorsebattery''
               ''correcthorsebattery'' = None"
    by (simp add: inmem_simps)
  have no: "CompareHashAndPassword (hasher_of inmem_service) ''$2a$correcthorsebattery''
               ''wrongpassword'' \<noteq> None"
    by (simp add: inmem_simps)
  from SetPassword_then_ComparePassword [OF inmem_credential_bucket_keeps_writes ok]
  obtain h where
    h: "GenerateFromPassword (hasher_of inmem_service) ''correcthorsebattery''
          (DefaultCost (bcrypt inmem_service)) = Inr h"
    and all: "\<forall>q. fst (ComparePassword inmem_service
          (snd (SetPassword inmem_service world0 1 ''correcthorsebattery'')) 1 q) =
        (if CompareHashAndPassword (hasher_of inmem_service) h q = None then None
         else Some EIncorrectPassword)"
    by (elim exE conjE)
  from h gen have hh: "h = ''$2a$correcthorsebattery''" by simp
  from all [THEN spec, of "''correcthorsebattery''"] yes
  have a: "fst (ComparePassword inmem_service
          (snd (SetPassword inmem_service world0 1 ''correcthorsebattery'')) 1
          ''correcthorsebattery'') = None"
    unfolding hh by simp
  from all [THEN spec, of "''wrongpassword''"] no
  have b: "fst (ComparePassword inmem_service
          (snd (SetPassword inmem_service world0 1 ''correcthorsebattery'')) 1
          ''wrongpassword'') = Some EIncorrectPassword"
    unfolding hh by simp
  from ok a b show ?thesis by (intro conjI)
qed

text \<open>
  C3 as the specification words it, with every plaintext other than \<open>p\<close> rejected,
  fails with a strategy that reads 72 bytes: after \<open>SetPassword\<close> of a plaintext of 73
  bytes, \<open>ComparePassword\<close> of a plaintext that differs in the last byte succeeds.
\<close>

theorem SetPassword_then_ComparePassword_counterexample:
  "MinPasswordLength \<le> length (long_password (CHR ''a'')) \<and>
   kv_findUserByID trunc_service (store world0) 1 = None \<and>
   fst (SetPassword trunc_service world0 1 (long_password (CHR ''a''))) = None \<and>
   long_password (CHR ''b'') \<noteq> long_password (CHR ''a'') \<and>
   fst (ComparePassword trunc_service
          (snd (SetPassword trunc_service world0 1 (long_password (CHR ''a'')))) 1
          (long_password (CHR ''b''))) = None"
proof -
  have a: "MinPasswordLength \<le> length (long_password (CHR ''a''))"
    by (simp add: length_long_password MinPasswordLength_def)
  have b: "kv_findUserByID trunc_service (store world0) 1 = None"
    by (simp add: trunc_service_def inmem_service_def world0_def)
  have c: "fst (SetPassword trunc_service world0 1 (long_password (CHR ''a''))) = None"
    by (simp add: SetPassword_trunc)
  have d: "fst (ComparePassword trunc_service
          (snd (SetPassword trunc_service world0 1 (long_password (CHR ''a'')))) 1
          (long_password (CHR ''b''))) = None"
    using ComparePassword_trunc [of "CHR ''b''"] by (simp add: world_long_def)
  from a b c long_password_neq d show ?thesis by (intro conjI)
qed


subsection \<open>Plaintexts below the minimum length\<close>

text \<open>
  C4. For a plaintext shorter than \<open>MinPasswordLength\<close>, \<open>SetPassword\<close> and
  \<open>CompareAndSetPassword\<close> (the short plaintext being the new password) return
  \<open>EShortPassword\<close> and hand back the world they were given: the store is as it was
  and no collaborator was called.
\<close>

theorem short_password_rejected:
  assumes "length p < MinPasswordLength"
  shows "SetPassword s w u p = (Some EShortPassword, w) \<and>
         CompareAndSetPassword s w u old p = (Some EShortPassword, w) \<and>
         store (snd (SetPassword s w u p)) = store w \<and>
         store (snd (CompareAndSetPassword s w u old p)) = store w"
  using assms by (simp add: SetPassword_def CompareAndSetPassword_def generatePasswordHash_eq)

theorem short_password_rejected_witness:
  "length ''short'' < MinPasswordLength \<and>
   SetPassword inmem_service world1 1 ''short'' = (Some EShortPassword, world1) \<and>
   CompareAndSetPassword inmem_service world1 1 ''correcthorsebattery'' ''short'' =
     (Some EShortPassword, world1)"
proof -
  have h: "length ''short'' < MinPasswordLength" by (simp add: MinPasswordLength_def)
  from short_password_rejected [OF h, of inmem_service world1 1 "''correcthorsebattery''"] h
  show ?thesis by simp
qed

subsection \<open>CompareAndSetPassword with a wrong old password\<close>

text \<open>
  C5. When the old password does not pass \<open>ComparePassword\<close>,
  \<open>CompareAndSetPassword\<close> returns an error, leaves the contents of the store as they
  were, opens no write transaction and calls no \<open>Put\<close>; every \<open>ComparePassword\<close>
  afterwards answers as it did before, so the original plaintext still succeeds.
\<close>

theorem CompareAndSetPassword_wrong_old:
  assumes "fst (ComparePassword s w u old) \<noteq> None"
  shows "fst (CompareAndSetPassword s w u old new) \<noteq> None \<and>
         store (snd (CompareAndSetPassword s w u old new)) = store w \<and>
         CallUpdate \<notin> set (new_calls w (snd (CompareAndSetPassword s w u old new))) \<and>
         (\<forall>k h. CallPut k h \<notin> set (new_calls w (snd (CompareAndSetPassword s w u old new)))) \<and>
         (\<forall>orig. fst (ComparePassword s (snd (CompareAndSetPassword s w u old new)) u orig) =
                 fst (ComparePassword s w u orig))"
proof -
  from assms have "fst (compareUserPassword s w u old) \<noteq> None"
    by (simp add: ComparePassword_def)
  from CompareAndSetPassword_old_fails [OF this, of new] obtain cs where
    err: "fst (CompareAndSetPassword s w u old new) \<noteq> None"
    and st: "store (snd (CompareAndSetPassword s w u old new)) = store w"
    and cs: "calls (snd (CompareAndSetPassword s w u old new)) = calls w @ cs"
    and nu: "CallUpdate \<notin> set cs" and np: "\<forall>k h. CallPut k h \<notin> set cs"
    by (elim exE conjE)
  have nc: "new_calls w (snd (CompareAndSetPassword s w u old new)) = cs"
    by (rule new_calls_append [OF cs])
  have same: "fst (ComparePassword s (snd (CompareAndSetPassword s w u old new)) u orig) =
                fst (ComparePassword s w u orig)" for orig
    unfolding ComparePassword_def by (rule compareUserPassword_result [OF st])
  from err st nu np same show ?thesis by (simp add: nc)
qed

theorem CompareAndSetPassword_wrong_old_witness:
  "fst (ComparePassword inmem_service world1 1 ''wrongpassword'') \<noteq> None \<and>
   fst (CompareAndSetPassword inmem_service world1 1 ''wrongpassword'' ''newpassword'') \<noteq> None \<and>
   store (snd (CompareAndSetPassword inmem_service world1 1 ''wrongpassword'' ''newpassword'')) =
     store world1 \<and>
   fst (ComparePassword inmem_service
          (snd (CompareAndSetPassword inmem_service world1 1 ''wrongpassword'' ''newpassword''))
          1 ''correcthorsebattery'') = None"
proof -
  have h: "fst (ComparePassword inmem_service world1 1 ''wrongpassword'') \<noteq> None"
    by (simp add: ComparePassword_world1_wrong)
  note t = CompareAndSetPassword_wrong_old [OF h, of "''newpassword''"]
  from t have a:
    "fst (CompareAndSetPassword inmem_service world1 1 ''wrongpassword'' ''newpassword'') \<noteq> None"
    by (rule conjunct1)
  from t have b:
    "store (snd (CompareAndSetPassword inmem_service world1 1 ''wrongpassword'' ''newpassword'')) =
       store world1"
    by (elim conjE)
  from t have "\<forall>orig. fst (ComparePassword inmem_service
          (snd (CompareAndSetPassword inmem_service world1 1 ''wrongpassword'' ''newpassword''))
          1 orig) = fst (ComparePassword inmem_service world1 1 orig)"
    by (elim conjE)
  then have "fst (ComparePassword inmem_service
          (snd (CompareAndSetPassword inmem_service world1 1 ''wrongpassword'' ''newpassword''))
          1 ''correcthorsebattery'') =
        fst (ComparePassword inmem_service world1 1 ''correcthorsebattery'')"
    by (rule spec)
  then have c: "fst (ComparePassword inmem_service
          (snd (CompareAndSetPassword inmem_service world1 1 ''wrongpassword'' ''newpassword''))
          1 ''correcthorsebattery'') = None"
    by (simp only: ComparePassword_world1_right)
  from h a b c show ?thesis by (intro conjI)
qed


subsection \<open>CompareAndSetPassword with the right old password\<close>

text \<open>
  C6, as the code has it. A \<open>CompareAndSetPassword\<close> succeeds only when the old
  plaintext passes \<open>ComparePassword\<close> and the new one has at least
  \<open>MinPasswordLength\<close> bytes. After it, on a store whose credential bucket keeps what
  is put into it, the stored digest is the one generated from the new plaintext:
  \<open>ComparePassword\<close> of any plaintext \<open>q\<close> succeeds exactly when the hashing strategy
  accepts \<open>q\<close> for that digest, and fails with \<open>EIncorrectPassword\<close> otherwise. So the
  new plaintext passes when the strategy accepts the plaintext it hashed, and the old
  one fails when the strategy rejects it for the new digest.
\<close>

theorem CompareAndSetPassword_replaces_password:
  assumes "credential_bucket_keeps_writes s"
    and "fst (CompareAndSetPassword s w u old new) = None"
  shows "MinPasswordLength \<le> length new \<and> fst (ComparePassword s w u old) = None \<and>
         (\<exists>h. GenerateFromPassword (hasher_of s) new (DefaultCost (bcrypt s)) = Inr h \<and>
              (\<forall>q. fst (ComparePassword s (snd (CompareAndSetPassword s w u old new)) u q) =
                     (if CompareHashAndPassword (hasher_of s) h q = None then None
                      else Some EIncorrectPassword)))"
proof -
  from CompareAndSetPassword_NoneD [OF assms(2)] obtain h k b where
    len: "MinPasswordLength \<le> length new"
    and gen: "GenerateFromPassword (hasher_of s) new (DefaultCost (bcrypt s)) = Inr h"
    and old: "fst (compareUserPassword s w u old) = None"
    and enc: "ID_Encode s u = Inr k" and usr: "kv_findUserByID s (store w) u = None"
    and bkt: "Tx_Bucket s (store w) userpasswordBucket = Inr b"
    and put: "Bucket_Put s (store w) b k h =
                Inr (store (snd (CompareAndSetPassword s w u old new)))"
    by (elim exE conjE)
  have "fst (ComparePassword s (snd (CompareAndSetPassword s w u old new)) u q) =
          (if CompareHashAndPassword (hasher_of s) h q = None then None
           else Some EIncorrectPassword)" for q
    unfolding ComparePassword_def
    by (rule compareUserPassword_after_write [OF assms(1) enc usr bkt put])
  then have "\<forall>q. fst (ComparePassword s (snd (CompareAndSetPassword s w u old new)) u q) =
          (if CompareHashAndPassword (hasher_of s) h q = None then None
           else Some EIncorrectPassword)" ..
  with gen have
    "\<exists>h. GenerateFromPassword (hasher_of s) new (DefaultCost (bcrypt s)) = Inr h \<and>
         (\<forall>q. fst (ComparePassword s (snd (CompareAndSetPassword s w u old new)) u q) =
                (if CompareHashAndPassword (hasher_of s) h q = None then None
                 else Some EIncorrectPassword))"
    by (intro exI [of _ h] conjI)
  moreover from old have "fst (ComparePassword s w u old) = None"
    by (simp add: ComparePassword_def)
  ultimately show ?thesis using len by (intro conjI)
qed

theorem CompareAndSetPassword_replaces_password_witness:
  "fst (CompareAndSetPassword inmem_service world1 1 ''correcthorsebattery'' ''newpassword'') = None \<and>
   fst (ComparePassword inmem_service
          (snd (CompareAndSetPassword inmem_service world1 1 ''correcthorsebattery'' ''newpassword''))
          1 ''correcthorsebattery'') = Some EIncorrectPassword \<and>
   fst (ComparePassword inmem_service
          (snd (CompareAndSetPassword inmem_service world1 1 ''correcthorsebattery'' ''newpassword''))
          1 ''newpassword'') = None"
proof -
  have ok: "fst (CompareAndSetPassword inmem_service world1 1 ''correcthorsebattery''
              ''newpassword'') = None"
    by (simp add: CompareAndSetPassword_world1)
  have gen: "GenerateFromPassword (hasher_of inmem_service) ''newpassword''
               (DefaultCost (bcrypt inmem_service)) = Inr ''$2a$newpassword''"
    by (simp add: inmem_simps)
  have yes: "CompareHashAndPassword (hasher_of inmem_service) ''$2a$newpassword''
               ''newpassword'' = None"
    by (simp add: inmem_simps)
  have no: "CompareHashAndPassword (hasher_of inmem_service) ''$2a$newpassword''
               ''correcthorsebattery'' \<noteq> None"
    by (simp add: inmem_simps)
  from CompareAndSetPassword_replaces_password [OF inmem_credential_bucket_keeps_writes ok]
  obtain h where
    h: "GenerateFromPassword (hasher_of inmem_service) ''newpassword''
          (DefaultCost (bcrypt inmem_service)) = Inr h"
    and all: "\<forall>q. fst (ComparePassword inmem_service
          (snd (CompareAndSetPassword inmem_service world1 1 ''correcthorsebattery''
                  ''newpassword'')) 1 q) =
        (if CompareHashAndPassword (hasher_of inmem_service) h q = None then None
         else Some EIncorrectPassword)"
    by (elim exE conjE)
  from h gen have hh: "h = ''$2a$newpassword''" by simp
  from all [THEN spec, of "''correcthorsebattery''"] no
  have a: "fst (ComparePassword inmem_service
          (snd (CompareAndSetPassword inmem_service world1 1 ''correcthorsebattery'' ''newpassword''))
          1 ''correcthorsebattery'') = Some EIncorrectPassword"
    unfolding hh by simp
  from all [THEN spec, of "''newpassword''"] yes
  have b: "fst (ComparePassword inmem_service
          (snd (CompareAndSetPassword inmem_service world1 1 ''correcthorsebattery'' ''newpassword''))
          1 ''newpassword'') = None"
    unfolding hh by simp
  from ok a b show ?thesis by (intro conjI)
qed

text \<open>
  C6 as the specification words it, with the old plaintext always rejected afterwards,
  fails with a strategy that reads 72 bytes: the old and the new plaintext have 73 bytes
  and differ in the last, the change succeeds, and the old plaintext still passes.
\<close>

theorem CompareAndSetPassword_replaces_password_counterexample:
  "kv_findUserByID trunc_service (store world_long) 1 = None \<and>
   fst (ComparePassword trunc_service world_long 1 (long_password (CHR ''a''))) = None \<and>
   MinPasswordLength \<le> length (long_password (CHR ''b'')) \<and>
   long_password (CHR ''b'') \<noteq> long_password (CHR ''a'') \<and>
   fst (CompareAndSetPassword trunc_service world_long 1
          (long_password (CHR ''a'')) (long_password (CHR ''b''))) = None \<and>
   fst (ComparePassword trunc_service
          (snd (CompareAndSetPassword trunc_service world_long 1
                  (long_password (CHR ''a'')) (long_password (CHR ''b''))))
          1 (long_password (CHR ''a''))) = None"
proof -
  have a: "kv_findUserByID trunc_service (store world_long) 1 = None"
    by (simp add: trunc_service_def inmem_service_def world_long_eq)
  have b: "fst (ComparePassword trunc_service world_long 1 (long_password (CHR ''a''))) = None"
    by (rule ComparePassword_trunc)
  have c: "MinPasswordLength \<le> length (long_password (CHR ''b''))"
    by (simp add: length_long_password MinPasswordLength_def)
  have d: "fst (CompareAndSetPassword trunc_service world_long 1
          (long_password (CHR ''a'')) (long_password (CHR ''b''))) = None"
    by (simp add: CompareAndSetPassword_trunc)
  have e: "fst (ComparePassword trunc_service
          (snd (CompareAndSetPassword trunc_service world_long 1
                  (long_password (CHR ''a'')) (long_password (CHR ''b''))))
          1 (long_password (CHR ''a''))) = None"
    unfolding CompareAndSetPassword_trunc
    by (simp add: ComparePassword_def compareUserPassword_eq
        getPasswordHash_eq trunc_simps take_long_password)
  from a b c long_password_neq d e show ?thesis by (intro conjI)
qed


subsection \<open>SetPassword hashes first\<close>

text \<open>
  C7. For a plaintext of at least \<open>MinPasswordLength\<close> bytes, the first call
  \<open>SetPassword\<close> makes is \<open>GenerateFromPassword\<close> of the hashing strategy, whatever
  the store holds and whether or not the user exists. What follows is decided by what
  the strategy returns: on an error \<open>SetPassword\<close> returns
  \<open>InternalPasswordHashError\<close> of it, having made no other call, for every user and
  store; on a digest it goes on to \<open>setPasswordHash\<close> with that digest, and only there
  is the user resolved. When the resolution of the user was reached and failed,
  \<open>SetPassword\<close> returns \<open>EIncorrectUser\<close>, the store is as it was, the calls were
  exactly generate, open the write transaction, resolve the user, and the strategy did
  return a digest.
\<close>

theorem SetPassword_hashes_before_resolving:
  assumes "MinPasswordLength \<le> length p"
  shows "(\<exists>rest. new_calls w (snd (SetPassword s w u p)) =
            CallGenerateFromPassword p (DefaultCost (bcrypt s)) # rest) \<and>
         (\<forall>err. GenerateFromPassword (hasher_of s) p (DefaultCost (bcrypt s)) = Inl err \<longrightarrow>
            SetPassword s w u p =
              (Some (InternalPasswordHashError err),
               w\<lparr>calls := calls w @ [CallGenerateFromPassword p (DefaultCost (bcrypt s))]\<rparr>)) \<and>
         (\<forall>h. GenerateFromPassword (hasher_of s) p (DefaultCost (bcrypt s)) = Inr h \<longrightarrow>
            SetPassword s w u p =
              setPasswordHash s
                (w\<lparr>calls := calls w @ [CallGenerateFromPassword p (DefaultCost (bcrypt s))]\<rparr>)
                u h) \<and>
         (CallFindUserByID u \<in> set (new_calls w (snd (SetPassword s w u p))) \<and>
          kv_findUserByID s (store w) u \<noteq> None \<longrightarrow>
            fst (SetPassword s w u p) = Some EIncorrectUser \<and>
            store (snd (SetPassword s w u p)) = store w \<and>
            new_calls w (snd (SetPassword s w u p)) =
              [CallGenerateFromPassword p (DefaultCost (bcrypt s)), CallUpdate,
               CallFindUserByID u] \<and>
            (\<exists>h. GenerateFromPassword (hasher_of s) p (DefaultCost (bcrypt s)) = Inr h))"
  using assms
  by (auto simp add: SetPassword_eq setPasswordHash_eq new_calls_def
      split: sum.splits option.splits)

theorem SetPassword_hashes_before_resolving_witness:
  "MinPasswordLength \<le> length ''correcthorsebattery'' \<and>
   CallFindUserByID 2 \<in>
     set (new_calls world0 (snd (SetPassword inmem_service world0 2 ''correcthorsebattery''))) \<and>
   kv_findUserByID inmem_service (store world0) 2 \<noteq> None \<and>
   fst (SetPassword inmem_service world0 2 ''correcthorsebattery'') = Some EIncorrectUser \<and>
   new_calls world0 (snd (SetPassword inmem_service world0 2 ''correcthorsebattery'')) =
     [CallGenerateFromPassword ''correcthorsebattery'' (DefaultCost (bcrypt inmem_service)),
      CallUpdate, CallFindUserByID 2] \<and>
   GenerateFromPassword (hasher_of inmem_service) ''correcthorsebattery''
     (DefaultCost (bcrypt inmem_service)) = Inr ''$2a$correcthorsebattery'' \<and>
   SetPassword inmem_service world0 2 ''correcthorsebattery'' =
     setPasswordHash inmem_service
       (world0\<lparr>calls := calls world0 @
          [CallGenerateFromPassword ''correcthorsebattery'' (DefaultCost (bcrypt inmem_service))]\<rparr>)
       2 ''$2a$correcthorsebattery'' \<and>
   GenerateFromPassword (hasher_of failing_service) ''correcthorsebattery''
     (DefaultCost (bcrypt failing_service)) = Inl ''entropy source unavailable'' \<and>
   SetPassword failing_service world0 2 ''correcthorsebattery'' =
     (Some (InternalPasswordHashError ''entropy source unavailable''),
      world0\<lparr>calls := calls world0 @
        [CallGenerateFromPassword ''correcthorsebattery'' (DefaultCost (bcrypt failing_service))]\<rparr>)"
proof -
  have len: "MinPasswordLength \<le> length ''correcthorsebattery''"
    by (simp add: MinPasswordLength_def)
  have call: "CallFindUserByID 2 \<in>
     set (new_calls world0 (snd (SetPassword inmem_service world0 2 ''correcthorsebattery'')))"
    by (simp add: SetPassword_world0_unknown new_calls_def calls_world0)
  have usr: "kv_findUserByID inmem_service (store world0) 2 \<noteq> None"
    by (simp add: inmem_service_def world0_def)
  have gen: "GenerateFromPassword (hasher_of inmem_service) ''correcthorsebattery''
     (DefaultCost (bcrypt inmem_service)) = Inr ''$2a$correcthorsebattery''"
    by (simp add: inmem_simps)
  have nogen: "GenerateFromPassword (hasher_of failing_service) ''correcthorsebattery''
     (DefaultCost (bcrypt failing_service)) = Inl ''entropy source unavailable''"
    by (simp add: failing_service_def failing_Crypt_def hasher_of_def inmem_service_def)
  note t = SetPassword_hashes_before_resolving [OF len, of world0 inmem_service 2]
  note f = SetPassword_hashes_before_resolving [OF len, of world0 failing_service 2]
  from t [THEN conjunct2, THEN conjunct2, THEN conjunct2, THEN mp, OF conjI [OF call usr]]
  have r: "fst (SetPassword inmem_service world0 2 ''correcthorsebattery'') = Some EIncorrectUser \<and>
       store (snd (SetPassword inmem_service world0 2 ''correcthorsebattery'')) = store world0 \<and>
       new_calls world0 (snd (SetPassword inmem_service world0 2 ''correcthorsebattery'')) =
         [CallGenerateFromPassword ''correcthorsebattery'' (DefaultCost (bcrypt inmem_service)),
          CallUpdate, CallFindUserByID 2] \<and>
       (\<exists>h. GenerateFromPassword (hasher_of inmem_service) ''correcthorsebattery''
              (DefaultCost (bcrypt inmem_service)) = Inr h)" .
  from r have a:
    "fst (SetPassword inmem_service world0 2 ''correcthorsebattery'') = Some EIncorrectUser"
    by (rule conjunct1)
  from r [THEN conjunct2, THEN conjunct2] have b:
    "new_calls world0 (snd (SetPassword inmem_service world0 2 ''correcthorsebattery'')) =
         [CallGenerateFromPassword ''correcthorsebattery'' (DefaultCost (bcrypt inmem_service)),
          CallUpdate, CallFindUserByID 2]"
    by (rule conjunct1)
  from t [THEN conjunct2, THEN conjunct2, THEN conjunct1, THEN spec, THEN mp, OF gen]
  have c: "SetPassword inmem_service world0 2 ''correcthorsebattery'' =
     setPasswordHash inmem_service
       (world0\<lparr>calls := calls world0 @
          [CallGenerateFromPassword ''correcthorsebattery'' (DefaultCost (bcrypt inmem_service))]\<rparr>)
       2 ''$2a$correcthorsebattery''" .
  from f [THEN conjunct2, THEN conjunct1, THEN spec, THEN mp, OF nogen]
  have d: "SetPassword failing_service world0 2 ''correcthorsebattery'' =
     (Some (InternalPasswordHashError ''entropy source unavailable''),
      world0\<lparr>calls := calls world0 @
        [CallGenerateFromPassword ''correcthorsebattery'' (DefaultCost (bcrypt failing_service))]\<rparr>)" .
  from len call usr a b gen c nogen d show ?thesis by (intro conjI)
qed


subsection \<open>The cost the bcrypt adapter passes on\<close>

text \<open>
  C8. \<open>GenerateFromPassword\<close> of the bcrypt adapter returns what the package's
  function returns, called with \<open>DefaultCost\<close> when the cost given is below
  \<open>bcrypt.MinCost\<close> and with the cost given otherwise; it has no error of its own. The
  cost passed on is never below \<open>bcrypt.MinCost\<close>, the package's default cost being at
  least its minimum cost (they are 10 and 4).
\<close>

theorem Bcrypt_GenerateFromPassword_cost:
  assumes "bcrypt_MinCost B \<le> bcrypt_DefaultCost B"
  shows "(cost < bcrypt_MinCost B \<longrightarrow>
            GenerateFromPassword (Bcrypt B) p cost =
              bcrypt_GenerateFromPassword B p (DefaultCost B) \<and>
            bcrypt_MinCost B \<le> DefaultCost B) \<and>
         (bcrypt_MinCost B \<le> cost \<longrightarrow>
            GenerateFromPassword (Bcrypt B) p cost = bcrypt_GenerateFromPassword B p cost)"
  using assms by (simp add: Bcrypt_def Bcrypt_GenerateFromPassword_def DefaultCost_def)

theorem Bcrypt_GenerateFromPassword_cost_witness:
  "bcrypt_MinCost fake_bcrypt \<le> bcrypt_DefaultCost fake_bcrypt \<and>
   (3::int) < bcrypt_MinCost fake_bcrypt \<and>
   GenerateFromPassword (Bcrypt fake_bcrypt) ''correcthorsebattery'' 3 =
     bcrypt_GenerateFromPassword fake_bcrypt ''correcthorsebattery'' 10 \<and>
   bcrypt_MinCost fake_bcrypt \<le> (12::int) \<and>
   GenerateFromPassword (Bcrypt fake_bcrypt) ''correcthorsebattery'' 12 =
     bcrypt_GenerateFromPassword fake_bcrypt ''correcthorsebattery'' 12"
proof -
  have h: "bcrypt_MinCost fake_bcrypt \<le> bcrypt_DefaultCost fake_bcrypt"
    and lo: "(3::int) < bcrypt_MinCost fake_bcrypt"
    and hi: "bcrypt_MinCost fake_bcrypt \<le> (12::int)"
    and d: "DefaultCost fake_bcrypt = 10"
    by (simp_all add: fake_bcrypt_def DefaultCost_def)
  from Bcrypt_GenerateFromPassword_cost [OF h, of 3 "''correcthorsebattery''"] lo d
  have a: "GenerateFromPassword (Bcrypt fake_bcrypt) ''correcthorsebattery'' 3 =
     bcrypt_GenerateFromPassword fake_bcrypt ''correcthorsebattery'' 10"
    by simp
  from Bcrypt_GenerateFromPassword_cost [OF h, of 12 "''correcthorsebattery''"] hi
  have b: "GenerateFromPassword (Bcrypt fake_bcrypt) ''correcthorsebattery'' 12 =
     bcrypt_GenerateFromPassword fake_bcrypt ''correcthorsebattery'' 12"
    by simp
  from h lo a hi b show ?thesis by (intro conjI)
qed


subsection \<open>Repeated comparisons\<close>

text \<open>
  C9. When \<open>ComparePassword\<close> fails for a user and a plaintext, each of \<open>n\<close> calls in
  a row fails, and after them the contents of the store are as before; none of the calls
  opened a write transaction or called \<open>Put\<close>. One \<open>ComparePassword\<close> first opens a
  read-only transaction and then opens no other transaction and calls no \<open>Put\<close>.
\<close>

theorem ComparePassword_repeated_wrong:
  assumes "fst (ComparePassword s w u p) \<noteq> None"
  shows "length (fst (ComparePassword_repeated n s w u p)) = n \<and>
         (\<forall>r \<in> set (fst (ComparePassword_repeated n s w u p)). r \<noteq> None) \<and>
         store (snd (ComparePassword_repeated n s w u p)) = store w \<and>
         CallUpdate \<notin> set (new_calls w (snd (ComparePassword_repeated n s w u p))) \<and>
         (\<forall>k h. CallPut k h \<notin> set (new_calls w (snd (ComparePassword_repeated n s w u p)))) \<and>
         (\<exists>rest. new_calls w (snd (ComparePassword s w u p)) = CallView # rest \<and>
                 CallView \<notin> set rest \<and> CallUpdate \<notin> set rest \<and>
                 (\<forall>k h. CallPut k h \<notin> set rest))"
proof -
  from ComparePassword_repeated_props [of n s w u p] obtain cs where
    st: "store (snd (ComparePassword_repeated n s w u p)) = store w"
    and cs: "calls (snd (ComparePassword_repeated n s w u p)) = calls w @ cs"
    and nu: "CallUpdate \<notin> set cs" and np: "\<forall>k h. CallPut k h \<notin> set cs"
    and len: "length (fst (ComparePassword_repeated n s w u p)) = n"
    and res: "\<forall>r \<in> set (fst (ComparePassword_repeated n s w u p)).
                r = fst (ComparePassword s w u p)"
    by (elim exE conjE)
  have nc: "new_calls w (snd (ComparePassword_repeated n s w u p)) = cs"
    by (rule new_calls_append [OF cs])
  have fail: "\<forall>r \<in> set (fst (ComparePassword_repeated n s w u p)). r \<noteq> None"
  proof
    fix r assume "r \<in> set (fst (ComparePassword_repeated n s w u p))"
    with res have "r = fst (ComparePassword s w u p)" by (rule bspec)
    with assms show "r \<noteq> None" by simp
  qed
  have one: "\<exists>rest. new_calls w (snd (ComparePassword s w u p)) = CallView # rest \<and>
                 CallView \<notin> set rest \<and> CallUpdate \<notin> set rest \<and>
                 (\<forall>k h. CallPut k h \<notin> set rest)"
    by (simp add: ComparePassword_def compareUserPassword_eq getPasswordHash_eq new_calls_def
        split: sum.splits option.splits)
  from len fail st nu np one show ?thesis by (simp add: nc)
qed

theorem ComparePassword_repeated_wrong_witness:
  "fst (ComparePassword inmem_service world1 1 ''wrongpassword'') \<noteq> None \<and>
   length (fst (ComparePassword_repeated 3 inmem_service world1 1 ''wrongpassword'')) = 3 \<and>
   store (snd (ComparePassword_repeated 3 inmem_service world1 1 ''wrongpassword'')) =
     store world1"
proof -
  have h: "fst (ComparePassword inmem_service world1 1 ''wrongpassword'') \<noteq> None"
    by (simp add: ComparePassword_world1_wrong)
  note t = ComparePassword_repeated_wrong [OF h, of 3]
  from t have a:
    "length (fst (ComparePassword_repeated 3 inmem_service world1 1 ''wrongpassword'')) = 3"
    by (rule conjunct1)
  from t [THEN conjunct2, THEN conjunct2] have b:
    "store (snd (ComparePassword_repeated 3 inmem_service world1 1 ''wrongpassword'')) =
       store world1"
    by (rule conjunct1)
  from h a b show ?thesis by (intro conjI)
qed


subsection \<open>CompareAndSetPassword looks at the new password first\<close>

text \<open>
  C10. With a new plaintext shorter than \<open>MinPasswordLength\<close>,
  \<open>CompareAndSetPassword\<close> returns \<open>EShortPassword\<close> and the world it was given, for
  every service, store, user and old plaintext: it called no collaborator, so it neither
  read the stored digest nor verified the old password. With a longer new plaintext its
  first call is the generation of the new digest, before anything is read.
\<close>

theorem CompareAndSetPassword_new_password_first:
  "(length new < MinPasswordLength \<longrightarrow>
      CompareAndSetPassword s w u old new = (Some EShortPassword, w) \<and>
      new_calls w (snd (CompareAndSetPassword s w u old new)) = []) \<and>
   (MinPasswordLength \<le> length new \<longrightarrow>
      (\<exists>rest. new_calls w (snd (CompareAndSetPassword s w u old new)) =
         CallGenerateFromPassword new (DefaultCost (bcrypt s)) # rest))"
  by (auto simp add: CompareAndSetPassword_eq compareUserPassword_eq getPasswordHash_eq
      setPasswordHash_eq new_calls_def split: sum.splits option.splits)

theorem CompareAndSetPassword_new_password_first_witness:
  "length ''short'' < MinPasswordLength \<and>
   CompareAndSetPassword inmem_service world1 2 ''wrongpassword'' ''short'' =
     (Some EShortPassword, world1) \<and>
   MinPasswordLength \<le> length ''newpassword'' \<and>
   (\<exists>rest. new_calls world1
       (snd (CompareAndSetPassword inmem_service world1 2 ''wrongpassword'' ''newpassword'')) =
      CallGenerateFromPassword ''newpassword'' (DefaultCost (bcrypt inmem_service)) # rest)"
proof -
  have s: "length ''short'' < MinPasswordLength"
    and l: "MinPasswordLength \<le> length ''newpassword''"
    by (simp_all add: MinPasswordLength_def)
  note t = CompareAndSetPassword_new_password_first [of _ inmem_service world1 2 "''wrongpassword''"]
  from t [of "''short''", THEN conjunct1, THEN mp, OF s, THEN conjunct1]
  have a: "CompareAndSetPassword inmem_service world1 2 ''wrongpassword'' ''short'' =
     (Some EShortPassword, world1)" .
  from t [of "''newpassword''", THEN conjunct2, THEN mp, OF l]
  have b: "\<exists>rest. new_calls world1
       (snd (CompareAndSetPassword inmem_service world1 2 ''wrongpassword'' ''newpassword'')) =
      CallGenerateFromPassword ''newpassword'' (DefaultCost (bcrypt inmem_service)) # rest" .
  from s a l b show ?thesis by (intro conjI)
qed


end
